theory Spec2Isabelle
  imports Complex_Main "HOL-Library.Word" "HOL-Library.Sublist"
begin

section \<open>Data model of gimli.c\<close>

text \<open>
  The header \<^verbatim>\<open>gimli.h\<close> is not part of the sources. What \<^verbatim>\<open>gimli.c\<close> uses from it is
  modelled as follows: the index constants of the arrays become datatypes, the capacity of
  the interface array and the three interface format macros are fields of the record
  \<open>gimli_h\<close>, and the \<^verbatim>\<open>scanf\<close> formats are replaced by the list of values that
  \<^verbatim>\<open>sscanf\<close> converts from a line.
\<close>

datatype status_t = G_OK | G_FAIL

text \<open>A store outside an array: the index of the first element written out of bounds.\<close>

datatype fault = OutOfBounds nat

text \<open>
  A \<^verbatim>\<open>long double\<close>: a finite value, an infinity or a NaN. Signed zeros are not
  distinguished.
\<close>

datatype ldouble = Fin real | PInf | NInf | NaN

datatype cpu_idx = CPU_USER | CPU_NICE | CPU_SYSTEM | CPU_IDLE | CPU_IOWAIT

datatype mem_idx = TOTAL_RAM | FREE_RAM | SHARED_RAM | BUFFER_RAM | TOTAL_SWAP
  | FREE_SWAP | TOTAL_HIGH | FREE_HIGH | MEM_UNIT

record gimli_net_t =
  ifname :: string
  ipv4 :: string

text \<open>
  The global \<^verbatim>\<open>gimli_t gimli\<close>. \<open>uptime\<close> is printed with \<^verbatim>\<open>%lu\<close>, \<open>procs\<close> with
  \<^verbatim>\<open>%hu\<close> and \<open>cores\<close> with \<^verbatim>\<open>%d\<close>, which fixes their types under \<^verbatim>\<open>-Wall -Werror\<close>
  (LP64). \<open>net\<close> is an array of fixed capacity: its length never changes.
\<close>

record gimli_t =
  cpu :: "cpu_idx \<Rightarrow> ldouble"
  load :: "real list"
  meminfo :: "mem_idx \<Rightarrow> 64 word"
  procs :: "16 word"
  uptime :: "64 word"
  cores :: "32 word"
  netifs :: nat
  net :: "gimli_net_t list"

text \<open>
  Modelled from the spec: the parts of \<^verbatim>\<open>gimli.h\<close> that the code needs and the sources
  do not show. \<open>NET_MAX\<close> is the "fixed maximum interface capacity" of the interface
  array; the three format macros take the interface name and its address.
\<close>

record gimli_h =
  NET_MAX :: nat
  IFNAME_JSON :: "string \<Rightarrow> string \<Rightarrow> string"
  IFNAME_PRETTY_FIRST_JSON :: "string \<Rightarrow> string \<Rightarrow> string"
  IFNAME_PRETTY_JSON :: "string \<Rightarrow> string \<Rightarrow> string"

text \<open>The zero-initialised global.\<close>

definition gimli_init :: "gimli_h \<Rightarrow> gimli_t" where
  "gimli_init h =
     \<lparr>cpu = (\<lambda>_. Fin 0), load = [0, 0, 0], meminfo = (\<lambda>_. 0), procs = 0, uptime = 0,
      cores = 0, netifs = 0,
      net = replicate (NET_MAX h) \<lparr>ifname = [], ipv4 = []\<rparr>\<rparr>"

section \<open>The C library, as far as the code uses it\<close>

definition CR :: char where "CR = CHR 0x0D"
definition LF :: char where "LF = CHR 0x0A"
definition NUL :: char where "NUL = CHR 0x00"
definition CRLF :: string where "CRLF = [CR, LF]"

text \<open>
  \<^verbatim>\<open>strncmp(a, b, n) == 0\<close> on strings without an inner NUL: the first \<open>n\<close> characters
  agree, or both strings end before that and are equal.
\<close>

definition strncmp_eq :: "string \<Rightarrow> string \<Rightarrow> nat \<Rightarrow> bool" where
  "strncmp_eq a b n = (take n a = take n b)"

text \<open>\<^verbatim>\<open>sizeof\<close> of a string literal counts the terminating NUL.\<close>

definition sizeof_lit :: "string \<Rightarrow> nat" where
  "sizeof_lit lit = length lit + 1"

definition digit :: "nat \<Rightarrow> char" where
  "digit d = ''0123456789'' ! d"

fun dec :: "nat \<Rightarrow> string" where
  "dec n = (if n < 10 then [digit n] else dec (n div 10) @ [digit (n mod 10)])"

declare dec.simps [simp del]

text \<open>\<^verbatim>\<open>%lu\<close> and \<^verbatim>\<open>%hu\<close>.\<close>

definition fmt_u :: "nat \<Rightarrow> string" where
  "fmt_u n = dec n"

text \<open>\<^verbatim>\<open>%0wlu\<close>: at least \<open>w\<close> digits, padded with zeros on the left.\<close>

definition fmt_0u :: "nat \<Rightarrow> nat \<Rightarrow> string" where
  "fmt_0u w n = replicate (w - length (dec n)) (CHR ''0'') @ dec n"

text \<open>\<^verbatim>\<open>%d\<close>.\<close>

definition fmt_d :: "int \<Rightarrow> string" where
  "fmt_d k = (if k < 0 then CHR ''-'' # dec (nat (- k)) else dec (nat k))"

text \<open>
  The conversions \<^verbatim>\<open>%.1Lf\<close> and \<^verbatim>\<open>%.2f\<close> of \<^verbatim>\<open>printf\<close> are parameters: no property
  below depends on how a floating-point value is printed.
\<close>

record printf_t =
  fmt_Lf1 :: "ldouble \<Rightarrow> string"
  fmt_f2 :: "real \<Rightarrow> string"

text \<open>\<^verbatim>\<open>snprintf(output, size, ...)\<close>: at most \<open>sz - 1\<close> characters and a NUL are stored.\<close>

definition snprintf :: "nat \<Rightarrow> string \<Rightarrow> string" where
  "snprintf sz s = take (sz - 1) s"

text \<open>
  \<^verbatim>\<open>sprintf(output + strlen(output), ...)\<close> into an array of \<open>cap\<close> bytes: the text and
  its NUL are stored after the present contents, with no check of the capacity.
\<close>

definition sprintf_at :: "nat \<Rightarrow> string \<Rightarrow> string \<Rightarrow> fault + string" where
  "sprintf_at cap out s =
     (if cap < length out + length s + 1 then Inl (OutOfBounds cap) else Inr (out @ s))"

text \<open>\<^verbatim>\<open>snprintf(output + strlen(output), size, ...)\<close>: bounded by \<open>sz\<close> from the offset.\<close>

definition snprintf_at :: "nat \<Rightarrow> string \<Rightarrow> nat \<Rightarrow> string \<Rightarrow> fault + string" where
  "snprintf_at cap out sz s = sprintf_at cap out (take (sz - 1) s)"

section \<open>The router: \<^verbatim>\<open>handle_request\<close>\<close>

text \<open>
  The indices of \<^verbatim>\<open>gimli.load\<close>: \<^verbatim>\<open>get_loadavg\<close> stores the averages of the last 1, 5 and
  15 minutes at 0, 1 and 2.
\<close>

definition LOAD_ONE :: nat where "LOAD_ONE = 0"
definition LOAD_FIVE :: nat where "LOAD_FIVE = 1"
definition LOAD_FIFTEEN :: nat where "LOAD_FIFTEEN = 2"

definition body_cpu :: "printf_t \<Rightarrow> nat \<Rightarrow> gimli_t \<Rightarrow> string" where
  \<open>body_cpu pf sz g = snprintf sz
     (''{"cpu":{"us":'' @ fmt_Lf1 pf (cpu g CPU_USER)
      @ '',"sy":'' @ fmt_Lf1 pf (cpu g CPU_SYSTEM)
      @ '',"id":'' @ fmt_Lf1 pf (cpu g CPU_IDLE)
      @ '',"wa":'' @ fmt_Lf1 pf (cpu g CPU_IOWAIT)
      @ '',"ni":'' @ fmt_Lf1 pf (cpu g CPU_NICE)
      @ ''}}'' @ CRLF)\<close>

definition body_load :: "printf_t \<Rightarrow> nat \<Rightarrow> gimli_t \<Rightarrow> string" where
  \<open>body_load pf sz g = snprintf sz
     (''{"load":['' @ fmt_f2 pf (load g ! LOAD_ONE)
      @ '', '' @ fmt_f2 pf (load g ! LOAD_FIVE)
      @ '', '' @ fmt_f2 pf (load g ! LOAD_FIFTEEN)
      @ '']}'' @ CRLF)\<close>

definition body_uptime :: "nat \<Rightarrow> gimli_t \<Rightarrow> string" where
  \<open>body_uptime sz g = snprintf sz
     (''{"uptime":['' @ fmt_u (unat (uptime g div 86400))
      @ '', '' @ fmt_0u 1 (unat (uptime g div 3600 mod 24))
      @ '', '' @ fmt_0u 2 (unat (uptime g div 60 mod 60))
      @ '']}'' @ CRLF)\<close>

definition body_procs :: "nat \<Rightarrow> gimli_t \<Rightarrow> string" where
  \<open>body_procs sz g = snprintf sz (''{"procs":'' @ fmt_u (unat (procs g)) @ ''}'' @ CRLF)\<close>

definition body_cores :: "nat \<Rightarrow> gimli_t \<Rightarrow> string" where
  \<open>body_cores sz g = snprintf sz (''{"cores":'' @ fmt_d (sint (cores g)) @ ''}'' @ CRLF)\<close>

definition body_err :: "nat \<Rightarrow> string" where
  \<open>body_err sz = snprintf sz (''{"err": 1}'' @ CRLF)\<close>

text \<open>
  The loop of the \<^verbatim>\<open>/net\<close> branch, from index \<open>i\<close>: entry \<open>i\<close> is appended with
  \<^verbatim>\<open>sprintf\<close>, then a comma unless it is the last one.
\<close>

function net_loop :: "gimli_h \<Rightarrow> nat \<Rightarrow> gimli_t \<Rightarrow> nat \<Rightarrow> string \<Rightarrow> fault + string" where
  "net_loop h cap g i out =
     (if i < netifs g then
        (if length (net g) \<le> i then Inl (OutOfBounds i)
         else case sprintf_at cap out
                (IFNAME_JSON h (ifname (net g ! i)) (ipv4 (net g ! i))) of
             Inl e \<Rightarrow> Inl e
           | Inr out1 \<Rightarrow>
               (if i + 1 < netifs g then
                  (case sprintf_at cap out1 '','' of
                     Inl e \<Rightarrow> Inl e
                   | Inr out2 \<Rightarrow> net_loop h cap g (i + 1) out2)
                else net_loop h cap g (i + 1) out1))
      else Inr out)"
  by pat_completeness auto
termination
  by (relation "measure (\<lambda>(h, cap, g, i, out). netifs g - i)") auto

declare net_loop.simps [simp del]

definition body_net :: "gimli_h \<Rightarrow> nat \<Rightarrow> gimli_t \<Rightarrow> fault + string" where
  \<open>body_net h sz g =
     (case net_loop h sz g 0 (snprintf sz ''{"netifs":['') of
        Inl e \<Rightarrow> Inl e
      | Inr out \<Rightarrow> sprintf_at sz out ('']}'' @ CRLF))\<close>

text \<open>The loop of the aggregate branch: the first entry has a format of its own.\<close>

function all_loop :: "gimli_h \<Rightarrow> nat \<Rightarrow> gimli_t \<Rightarrow> nat \<Rightarrow> string \<Rightarrow> fault + string" where
  "all_loop h cap g i out =
     (if i < netifs g then
        (if length (net g) \<le> i then Inl (OutOfBounds i)
         else case sprintf_at cap out
                ((if i = 0 then IFNAME_PRETTY_FIRST_JSON h else IFNAME_PRETTY_JSON h)
                   (ifname (net g ! i)) (ipv4 (net g ! i))) of
             Inl e \<Rightarrow> Inl e
           | Inr out1 \<Rightarrow>
               (if i + 1 < netifs g then
                  (case sprintf_at cap out1 '', '' of
                     Inl e \<Rightarrow> Inl e
                   | Inr out2 \<Rightarrow> all_loop h cap g (i + 1) out2)
                else all_loop h cap g (i + 1) out1))
      else Inr out)"
  by pat_completeness auto
termination
  by (relation "measure (\<lambda>(h, cap, g, i, out). netifs g - i)") auto

declare all_loop.simps [simp del]

definition body_all :: "printf_t \<Rightarrow> gimli_h \<Rightarrow> nat \<Rightarrow> gimli_t \<Rightarrow> fault + string" where
  \<open>body_all pf h sz g =
     (let out0 = snprintf sz
        (''{'' @ [LF]
         @ ''    "cpu": {'' @ [LF]
         @ ''        "us": '' @ fmt_Lf1 pf (cpu g CPU_USER) @ '','' @ [LF]
         @ ''        "sy": '' @ fmt_Lf1 pf (cpu g CPU_SYSTEM) @ '','' @ [LF]
         @ ''        "id": '' @ fmt_Lf1 pf (cpu g CPU_IDLE) @ '','' @ [LF]
         @ ''        "wa": '' @ fmt_Lf1 pf (cpu g CPU_IOWAIT) @ '','' @ [LF]
         @ ''        "ni": '' @ fmt_Lf1 pf (cpu g CPU_NICE) @ [LF]
         @ ''    },'' @ [LF]
         @ ''    "load": ['' @ fmt_f2 pf (load g ! LOAD_ONE)
         @ '', '' @ fmt_f2 pf (load g ! LOAD_FIVE)
         @ '', '' @ fmt_f2 pf (load g ! LOAD_FIFTEEN) @ ''],'' @ [LF]
         @ ''    "uptime": ['' @ fmt_u (unat (uptime g div 86400))
         @ '', '' @ fmt_0u 1 (unat (uptime g div 3600 mod 24))
         @ '', '' @ fmt_0u 2 (unat (uptime g div 60 mod 60)) @ ''],'' @ [LF]
         @ ''    "procs": '' @ fmt_u (unat (procs g)) @ '','' @ [LF]
         @ ''    "cores": '' @ fmt_d (sint (cores g)) @ '','' @ [LF])
      in case snprintf_at sz out0 sz ''    "netifs": ['' of
           Inl e \<Rightarrow> Inl e
         | Inr out1 \<Rightarrow>
             (case all_loop h sz g 0 out1 of
                Inl e \<Rightarrow> Inl e
              | Inr out2 \<Rightarrow> sprintf_at sz out2 ('']'' @ [LF] @ ''}'' @ CRLF)))\<close>

text \<open>
  \<^verbatim>\<open>handle_request(buf, output, size)\<close>: \<open>buf\<close> is the request as a C string, the result
  is the C string left in \<open>output\<close>, an array of \<open>sz\<close> bytes. The \<^verbatim>\<open>strncmp\<close> lengths
  are the source's: \<^verbatim>\<open>sizeof\<close> of the literal, less two.
\<close>

definition handle_request :: "printf_t \<Rightarrow> gimli_h \<Rightarrow> string \<Rightarrow> nat \<Rightarrow> gimli_t \<Rightarrow> fault + string" where
  "handle_request pf h buf sz g =
     (if strncmp_eq buf ''GET /cpu'' (sizeof_lit ''GET /cpu'' - 2) then
        Inr (body_cpu pf sz g)
      else if strncmp_eq buf ''GET /load'' (sizeof_lit ''GET /load'' - 2) then
        Inr (body_load pf sz g)
      else if strncmp_eq buf ''GET /uptime'' (sizeof_lit ''GET /uptime'' - 2) then
        Inr (body_uptime sz g)
      else if strncmp_eq buf ''GET /procs'' (sizeof_lit ''GET /procs'' - 2) then
        Inr (body_procs sz g)
      else if strncmp_eq buf ''GET /cores'' (sizeof_lit ''GET /cores'' - 2) then
        Inr (body_cores sz g)
      else if strncmp_eq buf ''GET /net'' (sizeof_lit ''GET /net'' - 2) then
        body_net h sz g
      else if strncmp_eq buf ''GET / HTTP'' (sizeof_lit ''GET / HTTP'' - 2) then
        body_all pf h sz g
      else Inr (body_err sz))"

section \<open>The connection handler: \<^verbatim>\<open>handle_connection\<close>\<close>

text \<open>The sizes of the two local arrays \<^verbatim>\<open>buf\<close> and \<^verbatim>\<open>output\<close>.\<close>

definition BUF_SIZE :: nat where "BUF_SIZE = 1024"
definition OUTPUT_SIZE :: nat where "OUTPUT_SIZE = 2048"

definition preamble :: string where
  "preamble = ''HTTP/1.1 200 OK'' @ CRLF
     @ ''Content-Type: application/json; charset=utf-8'' @ CRLF @ CRLF"

text \<open>
  What one connection does: nothing is sent after a failed \<^verbatim>\<open>recv\<close> or \<^verbatim>\<open>send\<close>;
  otherwise the preamble, and then the body, are sent.
\<close>

datatype conn_t = Lost | Sent "string list"

text \<open>
  The index at which lines 299 to 303 store the NUL, for \<open>len = length data > 0\<close> received
  bytes.
\<close>

definition nul_index :: "string \<Rightarrow> nat" where
  "nul_index data =
     (if data ! (length data - 1) = LF then length data - 1 else length data)"

text \<open>
  \<^verbatim>\<open>handle_connection\<close>. \<open>peer\<close> is what \<^verbatim>\<open>recv\<close> finds: \<open>None\<close> for an error, otherwise
  the bytes that have arrived, of which \<^verbatim>\<open>recv\<close> copies at most \<^verbatim>\<open>sizeof (buf)\<close> and
  returns the count. \<open>send1\<close> and \<open>send2\<close> say whether the two \<^verbatim>\<open>send\<close> calls succeed.
  After the NUL is stored, \<open>buf\<close> as a C string is the received text up to the NUL or
  to an earlier NUL byte of its own.
\<close>

definition handle_connection ::
  "printf_t \<Rightarrow> gimli_h \<Rightarrow> gimli_t \<Rightarrow> string option \<Rightarrow> bool \<Rightarrow> bool \<Rightarrow> fault + conn_t" where
  "handle_connection pf h g peer send1 send2 =
     (case peer of
        None \<Rightarrow> Inr Lost
      | Some arrived \<Rightarrow>
          (let data = take BUF_SIZE arrived; len = length data in
           if len \<le> 0 then Inr Lost
           else let k = nul_index data in
             if BUF_SIZE \<le> k then Inl (OutOfBounds k)
             else let buf = takeWhile (\<lambda>c. c \<noteq> NUL) (take k data);
                      output = snprintf OUTPUT_SIZE preamble in
               if \<not> send1 then Inr (Sent [])
               else (case handle_request pf h buf OUTPUT_SIZE g of
                       Inl e \<Rightarrow> Inl e
                     | Inr body \<Rightarrow>
                         (if \<not> send2 then Inr (Sent [output])
                          else Inr (Sent [output, body])))))"

section \<open>The samplers\<close>

subsection \<open>\<^verbatim>\<open>get_cpu_util\<close>\<close>

text \<open>
  The five counters of one sample (\<^verbatim>\<open>gimli_cpu_t\<close>, fields \<^verbatim>\<open>u n s i w\<close>), each a
  \<^verbatim>\<open>long double\<close>.
\<close>

record gimli_cpu_t =
  cpu_u :: ldouble
  cpu_n :: ldouble
  cpu_s :: ldouble
  cpu_i :: ldouble
  cpu_w :: ldouble

text \<open>The initialiser \<^verbatim>\<open>{0}\<close>.\<close>

definition cpu_zero :: gimli_cpu_t where
  "cpu_zero = \<lparr>cpu_u = Fin 0, cpu_n = Fin 0, cpu_s = Fin 0, cpu_i = Fin 0, cpu_w = Fin 0\<rparr>"

text \<open>
  \<^verbatim>\<open>sscanf(buf, CPU_FMT, &c.u, &c.n, &c.s, &c.i, &c.w)\<close>. The line is given by the
  values \<open>vals\<close> that the conversions of \<^verbatim>\<open>CPU_FMT\<close> yield from it, in order, up to the
  first that fails: they are stored in order and counted. (A return value of \<^verbatim>\<open>EOF\<close>
  stores nothing and is below every threshold, like a count of 0.)
\<close>

definition sscanf_cpu :: "ldouble list \<Rightarrow> gimli_cpu_t \<Rightarrow> nat \<times> gimli_cpu_t" where
  "sscanf_cpu vals c =
     (let vs = take 5 vals in
      (length vs,
       \<lparr>cpu_u = (if 0 < length vs then vs ! 0 else cpu_u c),
        cpu_n = (if 1 < length vs then vs ! 1 else cpu_n c),
        cpu_s = (if 2 < length vs then vs ! 2 else cpu_s c),
        cpu_i = (if 3 < length vs then vs ! 3 else cpu_i c),
        cpu_w = (if 4 < length vs then vs ! 4 else cpu_w c)\<rparr>))"

text \<open>
  What one call finds in \<^verbatim>\<open>/proc/stat\<close>: whether \<^verbatim>\<open>fopen\<close> succeeds, the two lines
  read by \<^verbatim>\<open>fgets\<close> three seconds apart (\<open>None\<close> when \<^verbatim>\<open>fgets\<close> fails), and whether
  \<^verbatim>\<open>fclose\<close> succeeds.
\<close>

record cpu_src =
  cpu_fopen :: bool
  cpu_line1 :: "ldouble list option"
  cpu_line2 :: "ldouble list option"
  cpu_fclose :: bool

text \<open>
  Arithmetic in \<^verbatim>\<open>long double\<close>, after IEEE 754 (signed zeros apart). The format is a
  parameter: \<open>fp_rnd\<close> rounds an exact result to the format and \<open>fp_max\<close> is its largest
  finite value. An exact result whose rounded value lies beyond \<open>fp_max\<close> becomes an
  infinity.
\<close>

record fp_t =
  fp_rnd :: "real \<Rightarrow> real"
  fp_max :: real

definition ld_fin :: "fp_t \<Rightarrow> real \<Rightarrow> ldouble" where
  "ld_fin fp x =
     (let y = fp_rnd fp x in
      if fp_max fp < y then PInf else if y < - fp_max fp then NInf else Fin y)"

fun ld_add :: "fp_t \<Rightarrow> ldouble \<Rightarrow> ldouble \<Rightarrow> ldouble" where
  "ld_add fp (Fin x) (Fin y) = ld_fin fp (x + y)"
| "ld_add fp NaN b = NaN"
| "ld_add fp a NaN = NaN"
| "ld_add fp PInf NInf = NaN"
| "ld_add fp NInf PInf = NaN"
| "ld_add fp PInf b = PInf"
| "ld_add fp a PInf = PInf"
| "ld_add fp NInf b = NInf"
| "ld_add fp a NInf = NInf"

fun ld_sub :: "fp_t \<Rightarrow> ldouble \<Rightarrow> ldouble \<Rightarrow> ldouble" where
  "ld_sub fp (Fin x) (Fin y) = ld_fin fp (x - y)"
| "ld_sub fp NaN b = NaN"
| "ld_sub fp a NaN = NaN"
| "ld_sub fp PInf PInf = NaN"
| "ld_sub fp NInf NInf = NaN"
| "ld_sub fp PInf b = PInf"
| "ld_sub fp a PInf = NInf"
| "ld_sub fp NInf b = NInf"
| "ld_sub fp a NInf = PInf"

text \<open>\<open>a < b\<close>; a comparison with a NaN is false.\<close>

fun ld_less :: "ldouble \<Rightarrow> ldouble \<Rightarrow> bool" where
  "ld_less (Fin x) (Fin y) = (x < y)"
| "ld_less NaN b = False"
| "ld_less a NaN = False"
| "ld_less PInf b = False"
| "ld_less a NInf = False"
| "ld_less a PInf = True"
| "ld_less NInf b = True"

text \<open>
  A finite value divided by zero is an infinity, or a NaN when it is zero itself
  (\<open>0 / 0\<close>); divided by an infinity it is zero.
\<close>

fun ld_div :: "fp_t \<Rightarrow> ldouble \<Rightarrow> ldouble \<Rightarrow> ldouble" where
  "ld_div fp (Fin x) (Fin y) =
     (if y = 0 then (if x = 0 then NaN else if 0 < x then PInf else NInf)
      else ld_fin fp (x / y))"
| "ld_div fp NaN b = NaN"
| "ld_div fp a NaN = NaN"
| "ld_div fp (Fin x) b = Fin 0"
| "ld_div fp PInf (Fin y) = (if 0 \<le> y then PInf else NInf)"
| "ld_div fp NInf (Fin y) = (if 0 \<le> y then NInf else PInf)"
| "ld_div fp a b = NaN"

text \<open>The product with a finite constant \<open>c\<close>.\<close>

definition ld_mul :: "fp_t \<Rightarrow> ldouble \<Rightarrow> real \<Rightarrow> ldouble" where
  "ld_mul fp x c =
     (case x of
        Fin a \<Rightarrow> ld_fin fp (a * c)
      | PInf \<Rightarrow> (if 0 < c then PInf else if c < 0 then NInf else NaN)
      | NInf \<Rightarrow> (if 0 < c then NInf else if c < 0 then PInf else NaN)
      | NaN \<Rightarrow> NaN)"

text \<open>\<^verbatim>\<open>new > old ? new - old : old - new\<close>\<close>

definition abs_delta :: "fp_t \<Rightarrow> ldouble \<Rightarrow> ldouble \<Rightarrow> ldouble" where
  "abs_delta fp new old = (if ld_less old new then ld_sub fp new old else ld_sub fp old new)"

definition cpu_diff :: "fp_t \<Rightarrow> gimli_cpu_t \<Rightarrow> gimli_cpu_t \<Rightarrow> gimli_cpu_t" where
  "cpu_diff fp old new =
     \<lparr>cpu_u = abs_delta fp (cpu_u new) (cpu_u old),
      cpu_n = abs_delta fp (cpu_n new) (cpu_n old),
      cpu_s = abs_delta fp (cpu_s new) (cpu_s old),
      cpu_i = abs_delta fp (cpu_i new) (cpu_i old),
      cpu_w = abs_delta fp (cpu_w new) (cpu_w old)\<rparr>"

text \<open>\<^verbatim>\<open>tot = diff.u + diff.n + diff.s + diff.i + diff.w\<close>, added from the left.\<close>

definition cpu_tot :: "fp_t \<Rightarrow> gimli_cpu_t \<Rightarrow> ldouble" where
  "cpu_tot fp d =
     ld_add fp (ld_add fp (ld_add fp (ld_add fp (cpu_u d) (cpu_n d)) (cpu_s d)) (cpu_i d))
       (cpu_w d)"

text \<open>\<^verbatim>\<open>(diff.x / tot) * 100\<close>\<close>

definition cpu_pct :: "fp_t \<Rightarrow> ldouble \<Rightarrow> ldouble \<Rightarrow> ldouble" where
  "cpu_pct fp d tot = ld_mul fp (ld_div fp d tot) 100"

definition get_cpu_util :: "fp_t \<Rightarrow> gimli_t \<Rightarrow> cpu_src \<Rightarrow> status_t \<times> gimli_t" where
  "get_cpu_util fp g src =
     (if \<not> cpu_fopen src then (G_FAIL, g)
      else case cpu_line1 src of
        None \<Rightarrow> (G_FAIL, g)
      | Some vals1 \<Rightarrow>
          (let (c1, old) = sscanf_cpu vals1 cpu_zero in
           if c1 < 4 then (G_FAIL, g)
           else case cpu_line2 src of
             None \<Rightarrow> (G_FAIL, g)
           | Some vals2 \<Rightarrow>
               (let (c2, new) = sscanf_cpu vals2 cpu_zero in
                if c2 < 4 then (G_FAIL, g)
                else if \<not> cpu_fclose src then (G_FAIL, g)
                else
                  (let diff = cpu_diff fp old new;
                       tot = cpu_tot fp diff
                   in (G_OK,
                       g\<lparr>cpu := (cpu g)
                           (CPU_USER := cpu_pct fp (cpu_u diff) tot,
                            CPU_NICE := cpu_pct fp (cpu_n diff) tot,
                            CPU_SYSTEM := cpu_pct fp (cpu_s diff) tot,
                            CPU_IDLE := cpu_pct fp (cpu_i diff) tot,
                            CPU_IOWAIT := cpu_pct fp (cpu_w diff) tot)\<rparr>)))))"

subsection \<open>\<^verbatim>\<open>get_loadavg\<close>\<close>

record load_src =
  load_fopen :: bool
  load_line :: "real list option"
  load_fclose :: bool

text \<open>
  \<^verbatim>\<open>sscanf(buf, LOAD_FMT, &gimli->load[0], &gimli->load[1], &gimli->load[2])\<close>: the
  converted values are stored into the array itself, in order, and counted.
\<close>

definition sscanf_load :: "real list \<Rightarrow> real list \<Rightarrow> nat \<times> real list" where
  "sscanf_load vals l =
     (let vs = take 3 vals in (length vs, vs @ drop (length vs) l))"

definition get_loadavg :: "gimli_t \<Rightarrow> load_src \<Rightarrow> status_t \<times> gimli_t" where
  "get_loadavg g src =
     (if \<not> load_fopen src then (G_FAIL, g)
      else case load_line src of
        None \<Rightarrow> (G_FAIL, g)
      | Some vals \<Rightarrow>
          (let (c, l) = sscanf_load vals (load g); g1 = g\<lparr>load := l\<rparr> in
           if c < 2 then (G_FAIL, g1)
           else if \<not> load_fclose src then (G_FAIL, g1)
           else (G_OK, g1)))"

subsection \<open>\<^verbatim>\<open>get_meminfo\<close>\<close>

text \<open>The fields of \<^verbatim>\<open>struct sysinfo\<close> that are read (see sysinfo(2)).\<close>

record sysinfo_t =
  si_uptime :: "64 word"
  si_totalram :: "64 word"
  si_freeram :: "64 word"
  si_sharedram :: "64 word"
  si_bufferram :: "64 word"
  si_totalswap :: "64 word"
  si_freeswap :: "64 word"
  si_procs :: "16 word"
  si_totalhigh :: "64 word"
  si_freehigh :: "64 word"
  si_mem_unit :: "32 word"

text \<open>\<open>None\<close>: \<^verbatim>\<open>sysinfo\<close> returned a negative value.\<close>

definition get_meminfo :: "gimli_t \<Rightarrow> sysinfo_t option \<Rightarrow> status_t \<times> gimli_t" where
  "get_meminfo g si =
     (case si of
        None \<Rightarrow> (G_FAIL, g)
      | Some m \<Rightarrow>
          (G_OK,
           g\<lparr>meminfo := (meminfo g)
               (TOTAL_RAM := (si_totalram m * ucast (si_mem_unit m)) div 1024,
                FREE_RAM := (si_freeram m * ucast (si_mem_unit m)) div 1024,
                SHARED_RAM := (si_sharedram m * ucast (si_mem_unit m)) div 1024,
                BUFFER_RAM := (si_bufferram m * ucast (si_mem_unit m)) div 1024,
                TOTAL_SWAP := (si_totalswap m * ucast (si_mem_unit m)) div 1024,
                FREE_SWAP := (si_freeswap m * ucast (si_mem_unit m)) div 1024,
                TOTAL_HIGH := (si_totalhigh m * ucast (si_mem_unit m)) div 1024,
                FREE_HIGH := (si_freehigh m * ucast (si_mem_unit m)) div 1024,
                MEM_UNIT := ucast (si_mem_unit m)),
             procs := si_procs m,
             uptime := si_uptime m\<rparr>))"

subsection \<open>\<^verbatim>\<open>get_netif\<close>\<close>

datatype sa_family_t = AF_INET | AF_INET6 | AF_PACKET

record sockaddr =
  sa_family :: sa_family_t
  sa_data :: string

text \<open>One element of the list that \<^verbatim>\<open>getifaddrs\<close> returns; \<open>ifa_addr\<close> may be NULL.\<close>

record ifaddrs =
  ifa_name :: string
  ifa_addr :: "sockaddr option"

text \<open>
  The loop over the list. \<open>gni\<close> is \<^verbatim>\<open>getnameinfo\<close> with \<^verbatim>\<open>NI_NUMERICHOST\<close>: its return
  value and the host text. The two \<^verbatim>\<open>sprintf\<close> calls store into element
  \<^verbatim>\<open>gimli->netifs\<close> of the array \<^verbatim>\<open>gimli->net\<close>; the source does not compare that index
  with the capacity of the array.
\<close>

fun netif_loop ::
  "(sockaddr \<Rightarrow> int \<times> string) \<Rightarrow> ifaddrs list \<Rightarrow> gimli_t \<Rightarrow> fault + status_t \<times> gimli_t" where
  "netif_loop gni [] g = Inr (G_OK, g)"
| "netif_loop gni (ifa # rest) g =
     (case ifa_addr ifa of
        None \<Rightarrow> netif_loop gni rest g
      | Some sa \<Rightarrow>
          (if sa_family sa = AF_INET then
             (if length (net g) \<le> netifs g then Inl (OutOfBounds (netifs g))
              else
                (let g1 = g\<lparr>net := (net g)
                            [netifs g := (net g ! netifs g)\<lparr>ifname := ifa_name ifa\<rparr>]\<rparr>;
                     (s, host) = gni sa
                 in if s \<noteq> 0 then Inr (G_FAIL, g1)
                    else netif_loop gni rest
                      (g1\<lparr>net := (net g1)[netifs g1 := (net g1 ! netifs g1)\<lparr>ipv4 := host\<rparr>],
                          netifs := netifs g1 + 1\<rparr>)))
           else netif_loop gni rest g))"

text \<open>\<open>None\<close>: \<^verbatim>\<open>getifaddrs\<close> returned -1.\<close>

definition get_netif ::
  "(sockaddr \<Rightarrow> int \<times> string) \<Rightarrow> gimli_t \<Rightarrow> ifaddrs list option \<Rightarrow> fault + status_t \<times> gimli_t" where
  "get_netif gni g enum =
     (case enum of
        None \<Rightarrow> Inr (G_FAIL, g)
      | Some ifaddr \<Rightarrow> netif_loop gni ifaddr (g\<lparr>netifs := 0\<rparr>))"

section \<open>The threads\<close>

text \<open>
  \<^verbatim>\<open>main\<close> starts the four sampler threads detached and then serves connections; nothing
  orders a step of one thread before a step of another. The loops of the sampler threads
  never end. A run of the program is followed for a finite number of steps: a step is
  the store of the core count at the start of \<^verbatim>\<open>gimli_mine_cpu\<close>, one pass of one sampler
  loop, with what it finds, or one connection.
\<close>

datatype event =
    CpuStart "32 word"
  | CpuCycle cpu_src
  | LoadCycle load_src
  | MemCycle "sysinfo_t option"
  | NetCycle "ifaddrs list option"
  | Connection "string option" bool bool

text \<open>The collaborators that stay the same during a run.\<close>

record world =
  w_printf :: printf_t
  w_header :: gimli_h
  w_fp :: fp_t
  w_gni :: "sockaddr \<Rightarrow> int \<times> string"

text \<open>
  \<^verbatim>\<open>gimli.cores = sysconf(_SC_NPROCESSORS_CONF)\<close> stores the value that \<^verbatim>\<open>sysconf\<close>
  returns, converted to \<^verbatim>\<open>int\<close>. A pass of a loop ignores the status, which is only
  logged.
\<close>

fun step :: "world \<Rightarrow> gimli_t \<Rightarrow> event \<Rightarrow> fault + gimli_t" where
  "step w g (CpuStart nproc) = Inr (g\<lparr>cores := nproc\<rparr>)"
| "step w g (CpuCycle src) = Inr (snd (get_cpu_util (w_fp w) g src))"
| "step w g (LoadCycle src) = Inr (snd (get_loadavg g src))"
| "step w g (MemCycle si) = Inr (snd (get_meminfo g si))"
| "step w g (NetCycle enum) =
     (case get_netif (w_gni w) g enum of Inl e \<Rightarrow> Inl e | Inr r \<Rightarrow> Inr (snd r))"
| "step w g (Connection peer send1 send2) =
     (case handle_connection (w_printf w) (w_header w) g peer send1 send2 of
        Inl e \<Rightarrow> Inl e
      | Inr r \<Rightarrow> Inr g)"




section \<open>Notions used in the statements\<close>

text \<open>
  The prefixes that \<^verbatim>\<open>handle_request\<close> compares, in its order: each \<^verbatim>\<open>strncmp\<close> of the
  source stops one character before the end of its literal.
\<close>

definition routing_prefixes :: "string list" where
  "routing_prefixes = [''GET /cp'', ''GET /loa'', ''GET /uptim'', ''GET /proc'', ''GET /core'',
     ''GET /ne'', ''GET / HTT'']"

text \<open>
  The counter behind each percentage, as lines 60 to 64 pair them, and its place in the
  line, as the arguments of \<^verbatim>\<open>sscanf\<close> give it.
\<close>

fun cpu_field :: "gimli_cpu_t \<Rightarrow> cpu_idx \<Rightarrow> ldouble" where
  "cpu_field d CPU_USER = cpu_u d"
| "cpu_field d CPU_NICE = cpu_n d"
| "cpu_field d CPU_SYSTEM = cpu_s d"
| "cpu_field d CPU_IDLE = cpu_i d"
| "cpu_field d CPU_IOWAIT = cpu_w d"

fun cpu_pos :: "cpu_idx \<Rightarrow> nat" where
  "cpu_pos CPU_USER = 0"
| "cpu_pos CPU_NICE = 1"
| "cpu_pos CPU_SYSTEM = 2"
| "cpu_pos CPU_IDLE = 3"
| "cpu_pos CPU_IOWAIT = 4"

text \<open>
  The value of a counter in a line of finite values \<open>xs\<close>; a counter that the line does
  not have keeps the 0 of the initialiser.
\<close>

definition counter :: "real list \<Rightarrow> cpu_idx \<Rightarrow> real" where
  "counter xs k = (if cpu_pos k < length xs then xs ! cpu_pos k else 0)"


text \<open>A successful read of two lines of \<^verbatim>\<open>/proc/stat\<close>.\<close>

definition cpu_read :: "ldouble list \<Rightarrow> ldouble list \<Rightarrow> cpu_src" where
  "cpu_read vals1 vals2 =
     \<lparr>cpu_fopen = True, cpu_line1 = Some vals1, cpu_line2 = Some vals2, cpu_fclose = True\<rparr>"

text \<open>
  The entries of an enumeration that the loop of \<^verbatim>\<open>get_netif\<close> keeps, and what it stores
  for one of them.
\<close>

definition is_inet :: "ifaddrs \<Rightarrow> bool" where
  "is_inet ifa = (case ifa_addr ifa of None \<Rightarrow> False | Some sa \<Rightarrow> sa_family sa = AF_INET)"

definition net_entry :: "(sockaddr \<Rightarrow> int \<times> string) \<Rightarrow> ifaddrs \<Rightarrow> gimli_net_t" where
  "net_entry gni ifa =
     \<lparr>ifname = ifa_name ifa,
      ipv4 = (case ifa_addr ifa of None \<Rightarrow> [] | Some sa \<Rightarrow> snd (gni sa))\<rparr>"

text \<open>\<^verbatim>\<open>getnameinfo\<close> succeeds for the addresses of the enumeration that it is called on.\<close>

definition resolves :: "(sockaddr \<Rightarrow> int \<times> string) \<Rightarrow> ifaddrs list \<Rightarrow> bool" where
  "resolves gni ifs =
     list_all (\<lambda>ifa. case ifa_addr ifa of
                 None \<Rightarrow> True
               | Some sa \<Rightarrow> sa_family sa \<noteq> AF_INET \<or> fst (gni sa) = 0) ifs"

text \<open>
  The text of the \<^verbatim>\<open>/net\<close> body for a list of entries: the entries in the format
  \<^verbatim>\<open>IFNAME_JSON\<close>, separated by commas.
\<close>

fun join_comma :: "string list \<Rightarrow> string" where
  "join_comma [] = []"
| "join_comma [x] = x"
| "join_comma (x # y # ys) = x @ '','' @ join_comma (y # ys)"

definition net_json :: "gimli_h \<Rightarrow> gimli_net_t list \<Rightarrow> string" where
  \<open>net_json h entries =
     ''{"netifs":['' @ join_comma (map (\<lambda>n. IFNAME_JSON h (ifname n) (ipv4 n)) entries)
     @ '']}'' @ CRLF\<close>

section \<open>Sample inputs\<close>

text \<open>Concrete collaborators and inputs, used where a property is evaluated.\<close>

definition printf_sample :: printf_t where
  "printf_sample = \<lparr>fmt_Lf1 = (\<lambda>x. ''0.0''), fmt_f2 = (\<lambda>x. ''0.00'')\<rparr>"

definition header_sample :: gimli_h where
  \<open>header_sample =
     \<lparr>NET_MAX = 4,
      IFNAME_JSON = (\<lambda>a b. ''{"ifname":"'' @ a @ ''","ipv4":"'' @ b @ ''"}''),
      IFNAME_PRETTY_FIRST_JSON = (\<lambda>a b. ''{"ifname": "'' @ a @ ''", "ipv4": "'' @ b @ ''"}''),
      IFNAME_PRETTY_JSON = (\<lambda>a b. ''{"ifname": "'' @ a @ ''", "ipv4": "'' @ b @ ''"}'')\<rparr>\<close>

text \<open>\<^verbatim>\<open>getnameinfo\<close> that succeeds, and one that fails with \<^verbatim>\<open>EAI_FAIL\<close>.\<close>

definition gni_sample :: "sockaddr \<Rightarrow> int \<times> string" where
  "gni_sample sa = (0, sa_data sa)"

definition gni_fails :: "sockaddr \<Rightarrow> int \<times> string" where
  "gni_fails sa = (- 4, [])"

text \<open>
  The largest finite \<^verbatim>\<open>long double\<close> of x86-64 (\<^verbatim>\<open>LDBL_MAX\<close>), and that format with exact
  arithmetic below it.
\<close>

definition LDBL_MAX :: real where
  "LDBL_MAX = 2 ^ 16384 - 2 ^ 16320"

definition fp_exact :: fp_t where
  "fp_exact = \<lparr>fp_rnd = (\<lambda>x. x), fp_max = LDBL_MAX\<rparr>"

text \<open>A finite \<^verbatim>\<open>long double\<close> whose double is beyond \<^verbatim>\<open>LDBL_MAX\<close> (about \<open>5.9e4931\<close>).\<close>

definition huge :: real where
  "huge = 2 ^ 16383"


definition eth0 :: ifaddrs where
  "eth0 = \<lparr>ifa_name = ''eth0'',
            ifa_addr = Some \<lparr>sa_family = AF_INET, sa_data = ''192.168.0.2''\<rparr>\<rparr>"

definition eth1 :: ifaddrs where
  "eth1 = \<lparr>ifa_name = ''eth1'',
            ifa_addr = Some \<lparr>sa_family = AF_INET6, sa_data = ''fe80::1''\<rparr>\<rparr>"

text \<open>
  Two lines of \<^verbatim>\<open>/proc/stat\<close>, as the counters \<^verbatim>\<open>sscanf\<close> converts from them; the second
  counter is smaller in the second line.
\<close>

definition stat_a :: "real list" where
  "stat_a = [100, 10, 50, 1000, 10]"


section \<open>Properties of the router\<close>

subsection \<open>Decimal conversions and bounded output\<close>








lemma snprintf_fits: "length s < sz \<Longrightarrow> snprintf sz s = s"
  by (simp add: snprintf_def)

lemma strncmp_eq_prefix:
  assumes "n \<le> length lit"
  shows "strncmp_eq buf lit n = prefix (take n lit) buf"
proof
  assume "strncmp_eq buf lit n"
  then have "take n lit = take n buf" by (simp add: strncmp_eq_def)
  then show "prefix (take n lit) buf" by (simp add: take_is_prefix)
next
  assume "prefix (take n lit) buf"
  then obtain zs where "buf = take n lit @ zs" by (auto simp: prefix_def)
  then show "strncmp_eq buf lit n" using assms by (simp add: strncmp_eq_def)
qed

subsection \<open>Routing\<close>

text \<open>
  The chain of \<^verbatim>\<open>strncmp\<close> tests selects the first of the compared prefixes that the
  request begins with.
\<close>

lemma handle_request_first_match:
  "handle_request pf h buf sz g =
     (if prefix ''GET /cp'' buf then Inr (body_cpu pf sz g)
      else if prefix ''GET /loa'' buf then Inr (body_load pf sz g)
      else if prefix ''GET /uptim'' buf then Inr (body_uptime sz g)
      else if prefix ''GET /proc'' buf then Inr (body_procs sz g)
      else if prefix ''GET /core'' buf then Inr (body_cores sz g)
      else if prefix ''GET /ne'' buf then body_net h sz g
      else if prefix ''GET / HTT'' buf then body_all pf h sz g
      else Inr (body_err sz))"
  unfolding handle_request_def by (simp add: strncmp_eq_prefix sizeof_lit_def)

lemma body_err_text: \<open>body_err OUTPUT_SIZE = ''{"err": 1}'' @ [CR, LF]\<close>
  by (simp add: body_err_def snprintf_fits OUTPUT_SIZE_def CRLF_def)

lemma route_cpu: "prefix ''GET /cpu'' buf \<Longrightarrow> handle_request pf h buf sz g = Inr (body_cpu pf sz g)"
  by (auto simp: handle_request_first_match prefix_def)

lemma route_load: "prefix ''GET /load'' buf \<Longrightarrow> handle_request pf h buf sz g = Inr (body_load pf sz g)"
  by (auto simp: handle_request_first_match prefix_def)


lemma route_procs:
  "prefix ''GET /procs'' buf \<Longrightarrow> handle_request pf h buf sz g = Inr (body_procs sz g)"
  by (auto simp: handle_request_first_match prefix_def)


lemma route_net: "prefix ''GET /net'' buf \<Longrightarrow> handle_request pf h buf sz g = body_net h sz g"
  by (auto simp: handle_request_first_match prefix_def)

lemma route_all:
  "prefix ''GET / HTTP'' buf \<Longrightarrow> handle_request pf h buf sz g = body_all pf h sz g"
  by (auto simp: handle_request_first_match prefix_def)

lemma route_unknown:
  "prefix ''GET /unknown'' buf \<Longrightarrow> handle_request pf h buf sz g = Inr (body_err sz)"
  by (auto simp: handle_request_first_match prefix_def)

lemma body_all_sample:
  "\<exists>t. body_all printf_sample header_sample OUTPUT_SIZE (gimli_init header_sample)
     = Inr (CHR ''{'' # LF # t)"
  by (simp add: body_all_def snprintf_def snprintf_at_def sprintf_at_def OUTPUT_SIZE_def
      all_loop.simps gimli_init_def Let_def printf_sample_def fmt_u_def fmt_0u_def fmt_d_def
      dec.simps digit_def CRLF_def LOAD_ONE_def LOAD_FIVE_def LOAD_FIFTEEN_def)

text \<open>
  C2 (amended). The claim: the request is matched against the ordered prefixes
  \<^verbatim>\<open>/cpu /load /uptime /procs /cores /net /\<close>, the first match wins, and the last one, the
  aggregate, matches every request \<^verbatim>\<open>GET /...\<close>, also an unmapped path such as
  \<^verbatim>\<open>GET /unknown\<close>. In the code the aggregate is compared with the literal
  \<^verbatim>\<open>GET / HTTP\<close>, and every comparison stops one character before the end of its
  literal. What holds, for every request: the body is that of the first of the prefixes
  \<^verbatim>\<open>GET /cp\<close>, \<^verbatim>\<open>GET /loa\<close>, \<^verbatim>\<open>GET /uptim\<close>, \<^verbatim>\<open>GET /proc\<close>, \<^verbatim>\<open>GET /core\<close>, \<^verbatim>\<open>GET /ne\<close>,
  \<^verbatim>\<open>GET / HTT\<close>, in this order, that the request begins with (cpu, load, uptime, procs,
  cores, net, aggregate), and the error object when it begins with none of them. So
  \<^verbatim>\<open>GET /cpanel\<close> gets the cpu body, \<^verbatim>\<open>GET / HTTX\<close> the aggregate, and \<^verbatim>\<open>GET /unknown\<close> the
  error object, not the aggregate.
\<close>

theorem C2_routing:
  "handle_request pf h buf sz g =
     (if prefix ''GET /cp'' buf then Inr (body_cpu pf sz g)
      else if prefix ''GET /loa'' buf then Inr (body_load pf sz g)
      else if prefix ''GET /uptim'' buf then Inr (body_uptime sz g)
      else if prefix ''GET /proc'' buf then Inr (body_procs sz g)
      else if prefix ''GET /core'' buf then Inr (body_cores sz g)
      else if prefix ''GET /ne'' buf then body_net h sz g
      else if prefix ''GET / HTT'' buf then body_all pf h sz g
      else Inr (body_err sz))"
  by (rule handle_request_first_match)

theorem C2_routing_counterexample:
  \<open>handle_request printf_sample header_sample ''GET /unknown HTTP/1.1'' OUTPUT_SIZE
       (gimli_init header_sample) = Inr (''{"err": 1}'' @ [CR, LF])
   \<and> handle_request printf_sample header_sample ''GET /unknown HTTP/1.1'' OUTPUT_SIZE
       (gimli_init header_sample)
     \<noteq> body_all printf_sample header_sample OUTPUT_SIZE (gimli_init header_sample)\<close>
proof -
  have "prefix ''GET /unknown'' ''GET /unknown HTTP/1.1''" by simp
  then have e: "handle_request printf_sample header_sample ''GET /unknown HTTP/1.1'' OUTPUT_SIZE
       (gimli_init header_sample) = Inr (body_err OUTPUT_SIZE)"
    by (rule route_unknown)
  obtain t where "body_all printf_sample header_sample OUTPUT_SIZE (gimli_init header_sample)
     = Inr (CHR ''{'' # LF # t)"
    using body_all_sample by blast
  then show ?thesis using e by (simp add: body_err_text LF_def)
qed

theorem C2_routing_witness:
  "handle_request printf_sample header_sample ''GET /cpu HTTP/1.1'' OUTPUT_SIZE (gimli_init header_sample)
     = Inr (body_cpu printf_sample OUTPUT_SIZE (gimli_init header_sample))
   \<and> handle_request printf_sample header_sample ''GET /cpanel'' OUTPUT_SIZE (gimli_init header_sample)
     = Inr (body_cpu printf_sample OUTPUT_SIZE (gimli_init header_sample))
   \<and> handle_request printf_sample header_sample ''GET /load HTTP/1.1'' OUTPUT_SIZE (gimli_init header_sample)
     = Inr (body_load printf_sample OUTPUT_SIZE (gimli_init header_sample))
   \<and> handle_request printf_sample header_sample ''GET /uptime HTTP/1.1'' OUTPUT_SIZE (gimli_init header_sample)
     = Inr (body_uptime OUTPUT_SIZE (gimli_init header_sample))
   \<and> handle_request printf_sample header_sample ''GET /procs HTTP/1.1'' OUTPUT_SIZE (gimli_init header_sample)
     = Inr (body_procs OUTPUT_SIZE (gimli_init header_sample))
   \<and> handle_request printf_sample header_sample ''GET /cores HTTP/1.1'' OUTPUT_SIZE (gimli_init header_sample)
     = Inr (body_cores OUTPUT_SIZE (gimli_init header_sample))
   \<and> handle_request printf_sample header_sample ''GET /net HTTP/1.1'' OUTPUT_SIZE (gimli_init header_sample)
     = body_net header_sample OUTPUT_SIZE (gimli_init header_sample)
   \<and> handle_request printf_sample header_sample ''GET / HTTP/1.1'' OUTPUT_SIZE (gimli_init header_sample)
     = body_all printf_sample header_sample OUTPUT_SIZE (gimli_init header_sample)
   \<and> handle_request printf_sample header_sample ''GET / HTTX'' OUTPUT_SIZE (gimli_init header_sample)
     = body_all printf_sample header_sample OUTPUT_SIZE (gimli_init header_sample)
   \<and> handle_request printf_sample header_sample ''GET /unknown HTTP/1.1'' OUTPUT_SIZE (gimli_init header_sample)
     = Inr (body_err OUTPUT_SIZE)
   \<and> handle_request printf_sample header_sample ''POST /cpu'' OUTPUT_SIZE (gimli_init header_sample)
     = Inr (body_err OUTPUT_SIZE)"
  by (simp add: C2_routing)

subsection \<open>The error object\<close>

text \<open>
  C3 (amended). The claim: a request that matches none of the routing prefixes gets
  exactly \<^verbatim>\<open>{"err":1}\<close> and the newline terminator. The format of the source has a space
  after the colon: such a request gets exactly the twelve bytes \<^verbatim>\<open>{"err": 1}\<close>, CR, LF.
\<close>

theorem C3_error_body:
  assumes "\<forall>p \<in> set routing_prefixes. \<not> prefix p buf"
  shows \<open>handle_request pf h buf OUTPUT_SIZE g = Inr (''{"err": 1}'' @ [CR, LF])\<close>
  using assms by (simp add: handle_request_first_match routing_prefixes_def body_err_text)

theorem C3_error_body_witness:
  \<open>find (\<lambda>p. prefix p ''GET /unknown HTTP/1.1'') routing_prefixes = None
   \<and> handle_request printf_sample header_sample ''GET /unknown HTTP/1.1'' OUTPUT_SIZE
       (gimli_init header_sample) = Inr (''{"err": 1}'' @ [CR, LF])\<close>
proof -
  have h: "\<forall>p \<in> set routing_prefixes. \<not> prefix p ''GET /unknown HTTP/1.1''"
    by (simp add: routing_prefixes_def)
  have f: "find (\<lambda>p. prefix p ''GET /unknown HTTP/1.1'') routing_prefixes = None"
    by (simp add: routing_prefixes_def)
  show ?thesis using f C3_error_body [OF h] by simp
qed

theorem C3_error_body_counterexample:
  \<open>\<not> (\<exists>t. handle_request printf_sample header_sample ''GET /unknown'' OUTPUT_SIZE
          (gimli_init header_sample) = Inr (''{"err":1}'' @ t))\<close>
  by (simp add: handle_request_first_match body_err_text)

subsection \<open>The uptime body\<close>







section \<open>Properties of the CPU sampler\<close>

subsection \<open>Rounded arithmetic without overflow\<close>









subsection \<open>A successful read\<close>

lemma sscanf_cpu_count: "fst (sscanf_cpu vals c) = min (length vals) 5"
  by (simp add: sscanf_cpu_def Let_def)

text \<open>What a successful read stores, whatever the values are.\<close>

lemma get_cpu_util_read:
  assumes "4 \<le> length vals1" and "4 \<le> length vals2"
  shows "get_cpu_util fp g (cpu_read vals1 vals2) =
     (G_OK, g\<lparr>cpu := \<lambda>k.
        cpu_pct fp
          (cpu_field (cpu_diff fp (snd (sscanf_cpu vals1 cpu_zero))
             (snd (sscanf_cpu vals2 cpu_zero))) k)
          (cpu_tot fp (cpu_diff fp (snd (sscanf_cpu vals1 cpu_zero))
             (snd (sscanf_cpu vals2 cpu_zero))))\<rparr>)"
proof -
  have c: "\<not> fst (sscanf_cpu vals1 cpu_zero) < 4" "\<not> fst (sscanf_cpu vals2 cpu_zero) < 4"
    using assms by (simp_all add: sscanf_cpu_count)
  have f: "(f(CPU_USER := f' CPU_USER, CPU_NICE := f' CPU_NICE, CPU_SYSTEM := f' CPU_SYSTEM,
      CPU_IDLE := f' CPU_IDLE, CPU_IOWAIT := f' CPU_IOWAIT)) = f'"
    for f f' :: "cpu_idx \<Rightarrow> ldouble"
  proof
    fix k show "(f(CPU_USER := f' CPU_USER, CPU_NICE := f' CPU_NICE, CPU_SYSTEM := f' CPU_SYSTEM,
      CPU_IDLE := f' CPU_IDLE, CPU_IOWAIT := f' CPU_IOWAIT)) k = f' k"
      by (cases k) simp_all
  qed
  show ?thesis
    using c
    by (simp add: get_cpu_util_def cpu_read_def split_beta Let_def
        f [where f' = "\<lambda>k. cpu_pct fp (cpu_field d k) t" for d t, simplified])
qed

text \<open>The sample that \<^verbatim>\<open>sscanf\<close> leaves for a line of at least four finite values.\<close>

lemma sscanf_cpu_counter:
  assumes "4 \<le> length xs"
  shows "snd (sscanf_cpu (map Fin xs) cpu_zero) =
     \<lparr>cpu_u = Fin (counter xs CPU_USER), cpu_n = Fin (counter xs CPU_NICE),
      cpu_s = Fin (counter xs CPU_SYSTEM), cpu_i = Fin (counter xs CPU_IDLE),
      cpu_w = Fin (counter xs CPU_IOWAIT)\<rparr>"
  using assms by (simp add: sscanf_cpu_def Let_def counter_def cpu_zero_def)




text \<open>\<open>LDBL_MAX\<close> against the other constants, without computing the powers.\<close>

lemma LDBL_MAX_bounds:
  shows "2 ^ 72 \<le> LDBL_MAX" and "0 < huge" and "huge \<le> LDBL_MAX" and "LDBL_MAX < huge + huge"
proof -
  define P :: real where "P = 2 ^ 16320"
  have n1: "(16320::nat) + 63 = 16383" and n2: "Suc 16383 = 16384" by simp_all
  have P1: "2 ^ 72 \<le> P" unfolding P_def by (rule power_increasing) simp_all
  have "(1::real) \<le> 2 ^ 72" by (rule one_le_power) simp
  then have P0: "1 \<le> P" using P1 by linarith
  have h: "huge = P * 2 ^ 63"
    using power_add [of "2::real" 16320 63] unfolding n1 huge_def P_def .
  have "(2::real) ^ Suc 16383 = 2 * 2 ^ 16383" by (rule power_Suc)
  then have m: "LDBL_MAX = 2 * huge - P"
    unfolding n2 LDBL_MAX_def huge_def P_def by (simp only:)
  define Q :: real where "Q = 2 ^ 63"
  have Q: "2 \<le> Q" by (simp add: Q_def)
  have hq: "huge = P * Q" using h by (simp only: Q_def)
  have "P * 2 \<le> P * Q" using Q P0 by (intro mult_left_mono) simp_all
  then have hP: "2 * P \<le> huge" by (simp add: hq mult.commute)
  show "0 < huge" using hP P0 by linarith
  show "huge \<le> LDBL_MAX" using m hP P0 by linarith
  show "LDBL_MAX < huge + huge" using m P0 by linarith
  show "2 ^ 72 \<le> LDBL_MAX" using m hP P1 P0 by linarith
qed


lemma fp_exact_simps: "fp_rnd fp_exact = (\<lambda>x. x)" "fp_max fp_exact = LDBL_MAX"
  by (simp_all add: fp_exact_def)


subsection \<open>Counters beyond the range\<close>





subsection \<open>Identical samples\<close>

lemma get_cpu_util_zero_delta:
  assumes "4 \<le> length xs" and "fp_rnd fp 0 = 0" and "0 \<le> fp_max fp"
  shows "get_cpu_util fp g (cpu_read (map Fin xs) (map Fin xs)) = (G_OK, g\<lparr>cpu := \<lambda>k. NaN\<rparr>)"
proof -
  have z: "ld_fin fp 0 = Fin 0" using assms(2,3) by (simp add: ld_fin_def)
  have a: "abs_delta fp (Fin x) (Fin x) = Fin 0" for x
    by (simp add: abs_delta_def z)
  have d: "cpu_diff fp (snd (sscanf_cpu (map Fin xs) cpu_zero))
      (snd (sscanf_cpu (map Fin xs) cpu_zero)) = cpu_zero"
    unfolding sscanf_cpu_counter [OF assms(1)] by (simp add: cpu_diff_def a cpu_zero_def)
  have t: "cpu_tot fp cpu_zero = Fin 0"
    by (simp add: cpu_tot_def cpu_zero_def z)
  have f: "cpu_field cpu_zero k = Fin 0" for k
    by (cases k) (simp_all add: cpu_zero_def)
  have p: "cpu_pct fp (Fin 0) (Fin 0) = NaN"
    by (simp add: cpu_pct_def ld_mul_def)
  show ?thesis
    using get_cpu_util_read [of "map Fin xs" "map Fin xs" fp g] assms(1)
    unfolding d t f p by simp
qed

text \<open>
  C1. The claim: when the two samples have all five deltas zero, the CPU sampler signals
  failure and does not update the percentages; it never stores a NaN. The code at two
  identical samples: \<^verbatim>\<open>tot\<close> is 0, no branch tests it, every percentage is \<open>0 / 0 * 100\<close>,
  a NaN, all five are stored and \<^verbatim>\<open>G_OK\<close> is returned.
\<close>

theorem C1_zero_delta_stores_nan:
  "get_cpu_util fp_exact g (cpu_read (map Fin stat_a) (map Fin stat_a))
     = (G_OK, g\<lparr>cpu := \<lambda>k. NaN\<rparr>)"
proof (rule get_cpu_util_zero_delta)
  show "4 \<le> length stat_a" by (simp add: stat_a_def)
  show "fp_rnd fp_exact 0 = 0" by (simp add: fp_exact_simps)
  show "0 \<le> fp_max fp_exact" using LDBL_MAX_bounds(1) by (simp add: fp_exact_simps)
qed

section \<open>Properties of the network sampler\<close>

lemma net_t_overwrite: "(r :: gimli_net_t)\<lparr>ifname := a, ipv4 := b\<rparr> = \<lparr>ifname = a, ipv4 = b\<rparr>"
  by (cases r) simp

text \<open>The loop stores the kept entries, in order, from index \<open>netifs g\<close> on.\<close>

lemma netif_loop_ok:
  assumes "resolves gni ifs"
    and "netifs g + length (filter is_inet ifs) \<le> length (net g)"
  shows "netif_loop gni ifs g =
     Inr (G_OK,
          g\<lparr>net := take (netifs g) (net g) @ map (net_entry gni) (filter is_inet ifs)
                   @ drop (netifs g + length (filter is_inet ifs)) (net g),
            netifs := netifs g + length (filter is_inet ifs)\<rparr>)"
  using assms
proof (induction ifs arbitrary: g)
  case Nil
  then show ?case by simp
next
  case (Cons ifa rest)
  have rr: "resolves gni rest" using Cons.prems(1) by (simp add: resolves_def)
  show ?case
  proof (cases "is_inet ifa")
    case False
    then have skip: "netif_loop gni (ifa # rest) g = netif_loop gni rest g"
      by (auto simp: is_inet_def split: option.splits)
    have "netifs g + length (filter is_inet rest) \<le> length (net g)"
      using Cons.prems(2) False by simp
    then show ?thesis using Cons.IH [OF rr] False skip by simp
  next
    case True
    then obtain sa where sa: "ifa_addr ifa = Some sa" "sa_family sa = AF_INET"
      by (auto simp: is_inet_def split: option.splits)
    have ok: "fst (gni sa) = 0" using Cons.prems(1) sa by (simp add: resolves_def)
    define k where "k = netifs g"
    have klt: "k < length (net g)" using Cons.prems(2) True by (simp add: k_def)
    define v where "v = net_entry gni ifa"
    define g2 where "g2 = g\<lparr>net := (net g)[k := v], netifs := k + 1\<rparr>"
    have v: "v = \<lparr>ifname = ifa_name ifa, ipv4 = snd (gni sa)\<rparr>"
      by (simp add: v_def net_entry_def sa)
    have step: "netif_loop gni (ifa # rest) g = netif_loop gni rest g2"
      using sa ok klt
      by (cases "gni sa") (simp add: g2_def v k_def [symmetric] Let_def net_t_overwrite)
    have cap: "netifs g2 + length (filter is_inet rest) \<le> length (net g2)"
      using Cons.prems(2) True by (simp add: g2_def k_def)
    have t: "take (k + 1) ((net g)[k := v]) = take k (net g) @ [v]"
      using klt by (simp add: take_Suc_conv_app_nth)
    have "netif_loop gni rest g2 =
      Inr (G_OK,
          g2\<lparr>net := take (netifs g2) (net g2) @ map (net_entry gni) (filter is_inet rest)
                   @ drop (netifs g2 + length (filter is_inet rest)) (net g2),
            netifs := netifs g2 + length (filter is_inet rest)\<rparr>)"
      by (rule Cons.IH [OF rr cap])
    then show ?thesis
      using True step t by (simp add: g2_def k_def [symmetric] v_def)
  qed
qed

lemma netif_loop_append:
  "netif_loop gni (xs @ ys) g =
     (case netif_loop gni xs g of
        Inl f \<Rightarrow> Inl f
      | Inr (st, g1) \<Rightarrow> (if st = G_OK then netif_loop gni ys g1 else Inr (st, g1)))"
proof (induction xs arbitrary: g)
  case Nil
  then show ?case by simp
next
  case (Cons x xs)
  show ?case
  proof (cases "ifa_addr x")
    case None
    then show ?thesis by (simp add: Cons.IH)
  next
    case (Some sa)
    obtain s host where "gni sa = (s, host)" by (cases "gni sa")
    then show ?thesis using Some by (simp add: Cons.IH Let_def)
  qed
qed

lemma get_netif_stores:
  assumes "resolves gni ifs"
    and "length (filter is_inet ifs) \<le> length (net g)"
  shows "get_netif gni g (Some ifs) =
     Inr (G_OK,
          g\<lparr>net := map (net_entry gni) (filter is_inet ifs)
                   @ drop (length (filter is_inet ifs)) (net g),
            netifs := length (filter is_inet ifs)\<rparr>)"
  using netif_loop_ok [of gni ifs "g\<lparr>netifs := 0\<rparr>"] assms
  by (simp add: get_netif_def)

subsection \<open>The body of \<^verbatim>\<open>/net\<close>\<close>

lemma join_comma_Cons:
  "join_comma (x # xs) = x @ (if xs = [] then [] else '','' @ join_comma xs)"
  by (cases xs) simp_all

text \<open>The loop of the \<^verbatim>\<open>/net\<close> branch appends the entries from \<open>i\<close> on, when they fit.\<close>

lemma net_loop_render:
  assumes "netifs g \<le> length (net g)" and "i \<le> netifs g"
    and "length out
          + length (join_comma (map (\<lambda>n. IFNAME_JSON h (ifname n) (ipv4 n))
                (drop i (take (netifs g) (net g))))) < cap"
  shows "net_loop h cap g i out =
     Inr (out @ join_comma (map (\<lambda>n. IFNAME_JSON h (ifname n) (ipv4 n))
                (drop i (take (netifs g) (net g)))))"
  using assms
proof (induction k \<equiv> "netifs g - i" arbitrary: i out)
  case 0
  then have "i = netifs g" by simp
  then show ?case by (subst net_loop.simps) simp
next
  case (Suc k)
  define R :: "gimli_net_t \<Rightarrow> string" where "R = (\<lambda>n. IFNAME_JSON h (ifname n) (ipv4 n))"
  define xs where "xs = take (netifs g) (net g)"
  have lx: "length xs = netifs g" using Suc.prems(1) by (simp add: xs_def)
  have i: "i < netifs g" using Suc.hyps(2) by simp
  then have il: "i < length (net g)" using Suc.prems(1) by simp
  have xi: "xs ! i = net g ! i" using i by (simp add: xs_def)
  have dr: "drop i xs = net g ! i # drop (Suc i) xs"
    using Cons_nth_drop_Suc [of i xs] i lx xi by simp
  define entry where "entry = R (net g ! i)"
  have e: "IFNAME_JSON h (ifname (net g ! i)) (ipv4 (net g ! i)) = entry"
    by (simp add: entry_def R_def)
  define rest where "rest = map R (drop (Suc i) xs)"
  have j: "join_comma (map R (drop i xs))
      = entry @ (if rest = [] then [] else '','' @ join_comma rest)"
    by (simp add: dr join_comma_Cons entry_def rest_def)
  have room: "length out + length entry
      + (if rest = [] then 0 else 1 + length (join_comma rest)) < cap"
    using Suc.prems(3) unfolding R_def [symmetric] xs_def [symmetric] j by (simp split: if_splits)
  have re: "rest = [] \<longleftrightarrow> \<not> i + 1 < netifs g"
    using lx by (auto simp: rest_def)
  have k: "k = netifs g - (i + 1)" using Suc.hyps(2) by simp
  have s1: "sprintf_at cap out entry = Inr (out @ entry)"
    using room by (simp add: sprintf_at_def split: if_splits)
  show ?case
  proof (cases "i + 1 < netifs g")
    case True
    then have rn: "rest \<noteq> []" using re by simp
    have s2: "sprintf_at cap (out @ entry) '','' = Inr (out @ entry @ '','')"
      using room rn by (simp add: sprintf_at_def)
    have "net_loop h cap g (i + 1) (out @ entry @ '','')
        = Inr ((out @ entry @ '','') @ join_comma (map (\<lambda>n. IFNAME_JSON h (ifname n) (ipv4 n))
                (drop (i + 1) (take (netifs g) (net g)))))"
      using room rn True
      by (intro Suc.hyps(1) [OF k Suc.prems(1)])
        (simp_all add: R_def [symmetric] xs_def [symmetric] rest_def [symmetric])
    moreover have "net_loop h cap g i out = net_loop h cap g (i + 1) (out @ entry @ '','')"
      using i il True by (subst net_loop.simps) (simp add: e s1 s2)
    ultimately have "net_loop h cap g i out = Inr ((out @ entry @ '','') @ join_comma rest)"
      by (simp add: R_def [symmetric] xs_def [symmetric] rest_def [symmetric])
    then show ?thesis
      unfolding R_def [symmetric] xs_def [symmetric] j using rn by simp
  next
    case False
    then have rn: "rest = []" using re by simp
    have "net_loop h cap g (i + 1) (out @ entry)
        = Inr ((out @ entry) @ join_comma (map (\<lambda>n. IFNAME_JSON h (ifname n) (ipv4 n))
                (drop (i + 1) (take (netifs g) (net g)))))"
      using room rn False i
      by (intro Suc.hyps(1) [OF k Suc.prems(1)])
        (simp_all add: R_def [symmetric] xs_def [symmetric] rest_def [symmetric])
    moreover have "net_loop h cap g i out = net_loop h cap g (i + 1) (out @ entry)"
      using i il False by (subst net_loop.simps) (simp add: e s1)
    ultimately have "net_loop h cap g i out = Inr ((out @ entry) @ join_comma rest)"
      by (simp add: R_def [symmetric] xs_def [symmetric] rest_def [symmetric])
    then show ?thesis
      unfolding R_def [symmetric] xs_def [symmetric] j using rn by simp
  qed
qed

lemma body_net_render:
  assumes "netifs g \<le> length (net g)"
    and "length (net_json h (take (netifs g) (net g))) < sz"
  shows "body_net h sz g = Inr (net_json h (take (netifs g) (net g)))"
proof -
  define J where "J = join_comma (map (\<lambda>n. IFNAME_JSON h (ifname n) (ipv4 n))
      (take (netifs g) (net g)))"
  have len: "11 + length J + 4 < sz"
    using assms(2) by (simp add: net_json_def J_def CRLF_def)
  have s0: \<open>snprintf sz ''{"netifs":['' = ''{"netifs":[''\<close>
    using len by (simp add: snprintf_def)
  have l: \<open>net_loop h sz g 0 ''{"netifs":[''  = Inr (''{"netifs":['' @ J)\<close>
    using net_loop_render [of g 0 \<open>''{"netifs":[''\<close> h sz] assms(1) len
    by (simp add: J_def)
  show ?thesis
    using len by (simp add: body_net_def s0 l sprintf_at_def net_json_def J_def CRLF_def)
qed

lemma get_netif_net_body:
  fixes gni :: "sockaddr \<Rightarrow> int \<times> string" and ifs :: "ifaddrs list" and g :: gimli_t
  defines "kept \<equiv> map (net_entry gni) (filter is_inet ifs)"
  defines "g1 \<equiv> g\<lparr>net := kept @ drop (length kept) (net g), netifs := length kept\<rparr>"
  assumes "resolves gni ifs"
    and "length (filter is_inet ifs) \<le> length (net g)"
    and "length (net_json h kept) < OUTPUT_SIZE"
    and "prefix ''GET /net'' buf"
  shows "get_netif gni g (Some ifs) = Inr (G_OK, g1)
    \<and> netifs g1 = length kept
    \<and> take (netifs g1) (net g1) = kept
    \<and> handle_request pf h buf OUTPUT_SIZE g1 = Inr (net_json h kept)"
proof -
  have lk: "length kept = length (filter is_inet ifs)" by (simp add: kept_def)
  have st: "get_netif gni g (Some ifs) = Inr (G_OK, g1)"
    using get_netif_stores [OF assms(3,4)] by (simp add: g1_def kept_def)
  have n: "netifs g1 = length kept" by (simp add: g1_def)
  have t: "take (netifs g1) (net g1) = kept" by (simp add: g1_def)
  have le: "netifs g1 \<le> length (net g1)" using assms(4) lk by (simp add: g1_def)
  have "length (net_json h (take (netifs g1) (net g1))) < OUTPUT_SIZE"
    using assms(5) by (simp only: t)
  then have "body_net h OUTPUT_SIZE g1 = Inr (net_json h (take (netifs g1) (net g1)))"
    by (rule body_net_render [OF le])
  then have "handle_request pf h buf OUTPUT_SIZE g1 = Inr (net_json h kept)"
    using route_net [OF assms(6), of pf h OUTPUT_SIZE g1] t by simp
  then show ?thesis using st n t by simp
qed

text \<open>
  C8 (amended). The claim: for every enumeration the network sampler stores exactly the
  enumerated entries whose address family is IPv4, so that one IPv4 and one IPv6-only
  interface give one entry in the list and in the \<^verbatim>\<open>/net\<close> result. The code returns
  \<^verbatim>\<open>G_FAIL\<close> with the count reset to 0 when \<^verbatim>\<open>getnameinfo\<close> fails for the first IPv4
  address: then no entry is listed, and \<^verbatim>\<open>/net\<close> shows none. What holds: when
  \<^verbatim>\<open>getnameinfo\<close> succeeds for the IPv4 addresses of the enumeration and the IPv4
  entries fit into the array, the call returns \<^verbatim>\<open>G_OK\<close>, the count is the number of
  IPv4 entries, the first entries of the list are their names and addresses, in the
  order of the enumeration, and a request \<^verbatim>\<open>GET /net\<close> on that state, when the text fits
  into the output buffer, gets exactly these entries.
\<close>

theorem C8_ipv4_only:
  fixes gni :: "sockaddr \<Rightarrow> int \<times> string" and ifs :: "ifaddrs list" and g :: gimli_t
  defines "kept \<equiv> map (net_entry gni) (filter is_inet ifs)"
  defines "g1 \<equiv> g\<lparr>net := kept @ drop (length kept) (net g), netifs := length kept\<rparr>"
  assumes "resolves gni ifs"
    and "length (filter is_inet ifs) \<le> length (net g)"
    and "length (net_json h kept) < OUTPUT_SIZE"
    and "prefix ''GET /net'' buf"
  shows "get_netif gni g (Some ifs) = Inr (G_OK, g1)
    \<and> netifs g1 = length kept
    \<and> take (netifs g1) (net g1) = kept
    \<and> handle_request pf h buf OUTPUT_SIZE g1 = Inr (net_json h kept)"
  using assms(3-) unfolding kept_def g1_def by (rule get_netif_net_body)

theorem C8_ipv4_only_witness:
  \<open>resolves gni_sample [eth0, eth1]
   \<and> map ifa_name (filter is_inet [eth0, eth1]) = [''eth0'']
   \<and> get_netif gni_sample (gimli_init header_sample) (Some [eth0, eth1]) =
       Inr (G_OK,
            (gimli_init header_sample)
              \<lparr>net := [\<lparr>ifname = ''eth0'', ipv4 = ''192.168.0.2''\<rparr>,
                       \<lparr>ifname = [], ipv4 = []\<rparr>, \<lparr>ifname = [], ipv4 = []\<rparr>,
                       \<lparr>ifname = [], ipv4 = []\<rparr>],
                netifs := 1\<rparr>)
   \<and> handle_request printf_sample header_sample ''GET /net HTTP/1.1'' OUTPUT_SIZE
        ((gimli_init header_sample)
              \<lparr>net := [\<lparr>ifname = ''eth0'', ipv4 = ''192.168.0.2''\<rparr>,
                       \<lparr>ifname = [], ipv4 = []\<rparr>, \<lparr>ifname = [], ipv4 = []\<rparr>,
                       \<lparr>ifname = [], ipv4 = []\<rparr>],
                netifs := 1\<rparr>)
       = Inr (''{"netifs":[{"ifname":"eth0","ipv4":"192.168.0.2"}]}'' @ [CR, LF])\<close>
proof -
  have r: "resolves gni_sample [eth0, eth1]"
    by (simp add: resolves_def eth0_def eth1_def gni_sample_def)
  have i0: "is_inet eth0" and i1: "\<not> is_inet eth1"
    by (simp_all add: is_inet_def eth0_def eth1_def)
  have n: "net (gimli_init header_sample) = replicate 4 \<lparr>ifname = [], ipv4 = []\<rparr>"
    by (simp add: gimli_init_def header_sample_def)
  have l: "length (filter is_inet [eth0, eth1]) \<le> length (net (gimli_init header_sample))"
    by (simp add: i0 i1 n)
  have e: "net_entry gni_sample eth0 = \<lparr>ifname = ''eth0'', ipv4 = ''192.168.0.2''\<rparr>"
    by (simp add: net_entry_def eth0_def gni_sample_def)
  have d: "replicate 3 x = [x, x, x]" for x :: gimli_net_t
    by (simp add: numeral_3_eq_3)
  have j: \<open>net_json header_sample [\<lparr>ifname = ''eth0'', ipv4 = ''192.168.0.2''\<rparr>]
      = ''{"netifs":[{"ifname":"eth0","ipv4":"192.168.0.2"}]}'' @ [CR, LF]\<close>
    by (simp add: net_json_def header_sample_def CRLF_def)
  have f: "length (net_json header_sample (map (net_entry gni_sample) (filter is_inet [eth0, eth1])))
      < OUTPUT_SIZE"
    by (simp add: i0 i1 e j OUTPUT_SIZE_def)
  have p: "prefix ''GET /net'' ''GET /net HTTP/1.1''" by simp
  have nm: "map ifa_name (filter is_inet [eth0, eth1]) = [''eth0'']"
    by (simp add: i0 i1) (simp add: eth0_def)
  show ?thesis
    using r nm C8_ipv4_only [OF r l f p, of printf_sample] by (simp add: i0 i1 n e d j)
qed

theorem C8_ipv4_only_counterexample:
  \<open>map ifa_name (filter is_inet [eth0, eth1]) = [''eth0'']
   \<and> get_netif gni_fails (gimli_init header_sample) (Some [eth0, eth1]) =
       Inr (G_FAIL,
            (gimli_init header_sample)
              \<lparr>net := [\<lparr>ifname = ''eth0'', ipv4 = []\<rparr>,
                       \<lparr>ifname = [], ipv4 = []\<rparr>, \<lparr>ifname = [], ipv4 = []\<rparr>,
                       \<lparr>ifname = [], ipv4 = []\<rparr>],
                netifs := 0\<rparr>)
   \<and> handle_request printf_sample header_sample ''GET /net HTTP/1.1'' OUTPUT_SIZE
        ((gimli_init header_sample)
              \<lparr>net := [\<lparr>ifname = ''eth0'', ipv4 = []\<rparr>,
                       \<lparr>ifname = [], ipv4 = []\<rparr>, \<lparr>ifname = [], ipv4 = []\<rparr>,
                       \<lparr>ifname = [], ipv4 = []\<rparr>],
                netifs := 0\<rparr>)
       = Inr (''{"netifs":[]}'' @ [CR, LF])\<close>
proof -
  have i0: "is_inet eth0" and i1: "\<not> is_inet eth1"
    by (simp_all add: is_inet_def eth0_def eth1_def)
  have nm: "map ifa_name (filter is_inet [eth0, eth1]) = [''eth0'']"
    by (simp add: i0 i1) (simp add: eth0_def)
  have d: "replicate 4 x = [x, x, x, x]" for x :: gimli_net_t
    by (simp add: numeral_eq_Suc)
  have a: "get_netif gni_fails (gimli_init header_sample) (Some [eth0, eth1]) =
       Inr (G_FAIL,
            (gimli_init header_sample)
              \<lparr>net := [\<lparr>ifname = ''eth0'', ipv4 = []\<rparr>,
                       \<lparr>ifname = [], ipv4 = []\<rparr>, \<lparr>ifname = [], ipv4 = []\<rparr>,
                       \<lparr>ifname = [], ipv4 = []\<rparr>],
                netifs := 0\<rparr>)"
    by (simp add: get_netif_def gimli_init_def header_sample_def eth0_def gni_fails_def d)
  have p: "prefix ''GET /net'' ''GET /net HTTP/1.1''" by simp
  have b: \<open>body_net header_sample OUTPUT_SIZE
        ((gimli_init header_sample)
              \<lparr>net := [\<lparr>ifname = ''eth0'', ipv4 = []\<rparr>,
                       \<lparr>ifname = [], ipv4 = []\<rparr>, \<lparr>ifname = [], ipv4 = []\<rparr>,
                       \<lparr>ifname = [], ipv4 = []\<rparr>],
                netifs := 0\<rparr>)
       = Inr (''{"netifs":[]}'' @ [CR, LF])\<close>
    by (subst body_net_render) (simp_all add: net_json_def CRLF_def OUTPUT_SIZE_def)
  show ?thesis
    using nm a b route_net [OF p] by simp
qed

subsection \<open>An enumeration beyond the capacity\<close>

text \<open>
  With one more IPv4 entry than the array holds, the store for it is outside the array.
\<close>

lemma netif_loop_full:
  assumes "is_inet ifa" and "length (net g) \<le> netifs g"
  shows "netif_loop gni (ifa # rest) g = Inl (OutOfBounds (netifs g))"
  using assms by (auto simp: is_inet_def split: option.splits)

lemma get_netif_overflow:
  assumes "resolves gni ifs" and "length (filter is_inet ifs) = length (net g)"
    and "is_inet ifa"
  shows "get_netif gni g (Some (ifs @ ifa # rest)) = Inl (OutOfBounds (length (net g)))"
proof -
  define g1 where "g1 = g\<lparr>net := map (net_entry gni) (filter is_inet ifs)
                   @ drop (length (filter is_inet ifs)) (net g),
            netifs := length (filter is_inet ifs)\<rparr>"
  have a: "netif_loop gni ifs (g\<lparr>netifs := 0\<rparr>) = Inr (G_OK, g1)"
    using netif_loop_ok [of gni ifs "g\<lparr>netifs := 0\<rparr>"] assms(1,2) by (simp add: g1_def)
  have "length (net g1) \<le> netifs g1" using assms(2) by (simp add: g1_def)
  then have b: "netif_loop gni (ifa # rest) g1 = Inl (OutOfBounds (netifs g1))"
    by (rule netif_loop_full [OF assms(3)])
  have n: "netifs g1 = length (net g)" using assms(2) by (simp add: g1_def)
  have "get_netif gni g (Some (ifs @ ifa # rest)) = netif_loop gni (ifs @ ifa # rest) (g\<lparr>netifs := 0\<rparr>)"
    by (simp add: get_netif_def)
  also have "\<dots> = netif_loop gni (ifa # rest) g1"
    unfolding netif_loop_append a by simp
  also have "\<dots> = Inl (OutOfBounds (length (net g)))"
    unfolding b n ..
  finally show ?thesis .
qed

text \<open>
  C5. The claim: the number of entries stored never exceeds the capacity of the
  interface list, entries beyond it are dropped, and every store stays inside the list.
  The code at an enumeration of one more IPv4 interface than the array holds, whatever
  the capacity is: the loop never compares \<^verbatim>\<open>gimli->netifs\<close> with the capacity, and the
  store for the last interface is at index \<open>NET_MAX\<close>, outside \<^verbatim>\<open>gimli->net\<close>.
\<close>

theorem C5_store_past_capacity:
  "get_netif gni_sample (gimli_init h) (Some (replicate (NET_MAX h + 1) eth0))
     = Inl (OutOfBounds (NET_MAX h))"
proof -
  have i: "is_inet eth0" by (simp add: is_inet_def eth0_def)
  have r: "resolves gni_sample (replicate (NET_MAX h) eth0)"
    by (simp add: resolves_def gni_sample_def eth0_def list_all_iff)
  have l: "length (filter is_inet (replicate (NET_MAX h) eth0)) = length (net (gimli_init h))"
    using i by (simp add: gimli_init_def)
  have "replicate (NET_MAX h + 1) eth0 = replicate (NET_MAX h) eth0 @ eth0 # []"
    by (simp add: replicate_append_same)
  then show ?thesis
    using get_netif_overflow [OF r l i, of "[]"] by (simp add: gimli_init_def)
qed

section \<open>Failing sampler cycles\<close>

lemma get_cpu_util_fail: "fst (get_cpu_util fp g src) = G_FAIL \<Longrightarrow> snd (get_cpu_util fp g src) = g"
  by (auto simp: get_cpu_util_def Let_def split_beta split: if_splits option.splits)

lemma get_meminfo_fail: "fst (get_meminfo g si) = G_FAIL \<Longrightarrow> snd (get_meminfo g si) = g"
  by (auto simp: get_meminfo_def split: option.splits)

lemma get_loadavg_unread:
  "\<not> load_fopen src \<or> load_line src = None \<or> load_line src = Some []
   \<Longrightarrow> get_loadavg g src = (G_FAIL, g)"
  by (auto simp: get_loadavg_def sscanf_load_def)

text \<open>
  C4 (amended). The claim: a sampler cycle that fails leaves the sampler's fields of the
  snapshot exactly at their previous values. \<^verbatim>\<open>get_loadavg\<close> lets \<^verbatim>\<open>sscanf\<close> store into
  \<^verbatim>\<open>gimli->load\<close> before it tests the count, so a line with one value overwrites
  \<^verbatim>\<open>load[0]\<close> and then fails. What holds: a cycle that fails before the sampler's first
  store leaves the whole snapshot as it was; these are every failing CPU cycle, a load
  cycle whose source cannot be read or whose line yields no value, a failing memory
  cycle, and a network cycle whose enumeration fails.
\<close>

theorem C4_failure_before_store:
  "(fst (get_cpu_util fp g cs) = G_FAIL \<longrightarrow> snd (get_cpu_util fp g cs) = g)
   \<and> (\<not> load_fopen ls \<or> load_line ls = None \<or> load_line ls = Some []
        \<longrightarrow> get_loadavg g ls = (G_FAIL, g))
   \<and> (fst (get_meminfo g si) = G_FAIL \<longrightarrow> snd (get_meminfo g si) = g)
   \<and> get_netif gni g None = Inr (G_FAIL, g)"
  using get_cpu_util_fail [of fp g cs] get_loadavg_unread [of ls g]
    get_meminfo_fail [of g si]
  by (simp add: get_netif_def)

theorem C4_failure_before_store_witness:
  "fst (get_cpu_util fp_exact (gimli_init header_sample)
          \<lparr>cpu_fopen = True, cpu_line1 = Some [Fin 1, Fin 2, Fin 3], cpu_line2 = None, cpu_fclose = True\<rparr>)
     = G_FAIL
   \<and> snd (get_cpu_util fp_exact (gimli_init header_sample)
          \<lparr>cpu_fopen = True, cpu_line1 = Some [Fin 1, Fin 2, Fin 3], cpu_line2 = None, cpu_fclose = True\<rparr>)
     = gimli_init header_sample
   \<and> load_line \<lparr>load_fopen = True, load_line = Some [], load_fclose = True\<rparr> = Some []
   \<and> get_loadavg (gimli_init header_sample)
        \<lparr>load_fopen = True, load_line = Some [], load_fclose = True\<rparr>
     = (G_FAIL, gimli_init header_sample)
   \<and> fst (get_meminfo (gimli_init header_sample) None) = G_FAIL
   \<and> snd (get_meminfo (gimli_init header_sample) None) = gimli_init header_sample
   \<and> get_netif gni_sample (gimli_init header_sample) None
     = Inr (G_FAIL, gimli_init header_sample)"
proof -
  have c: "fst (get_cpu_util fp_exact (gimli_init header_sample)
          \<lparr>cpu_fopen = True, cpu_line1 = Some [Fin 1, Fin 2, Fin 3], cpu_line2 = None, cpu_fclose = True\<rparr>)
     = G_FAIL"
    by (simp add: get_cpu_util_def sscanf_cpu_def)
  have m: "fst (get_meminfo (gimli_init header_sample) None) = G_FAIL"
    by (simp add: get_meminfo_def)
  show ?thesis
    using c m
      C4_failure_before_store [of fp_exact "gimli_init header_sample"
        "\<lparr>cpu_fopen = True, cpu_line1 = Some [Fin 1, Fin 2, Fin 3], cpu_line2 = None, cpu_fclose = True\<rparr>"
        "\<lparr>load_fopen = True, load_line = Some [], load_fclose = True\<rparr>" None gni_sample]
    by simp
qed

theorem C4_failure_before_store_counterexample:
  "fst (get_loadavg (gimli_init header_sample)
          \<lparr>load_fopen = True, load_line = Some [3 / 2], load_fclose = True\<rparr>) = G_FAIL
   \<and> load (snd (get_loadavg (gimli_init header_sample)
          \<lparr>load_fopen = True, load_line = Some [3 / 2], load_fclose = True\<rparr>)) = [3 / 2, 0, 0]
   \<and> load (gimli_init header_sample) = [0, 0, 0]
   \<and> snd (get_loadavg (gimli_init header_sample)
          \<lparr>load_fopen = True, load_line = Some [3 / 2], load_fclose = True\<rparr>)
       \<noteq> gimli_init header_sample"
proof -
  have l: "load (snd (get_loadavg (gimli_init header_sample)
          \<lparr>load_fopen = True, load_line = Some [3 / 2], load_fclose = True\<rparr>)) = [3 / 2, 0, 0]"
    by (simp add: get_loadavg_def sscanf_load_def gimli_init_def)
  have i: "load (gimli_init header_sample) = [0, 0, 0]"
    by (simp add: gimli_init_def)
  have "snd (get_loadavg (gimli_init header_sample)
          \<lparr>load_fopen = True, load_line = Some [3 / 2], load_fclose = True\<rparr>)
       \<noteq> gimli_init header_sample"
  proof
    assume "snd (get_loadavg (gimli_init header_sample)
          \<lparr>load_fopen = True, load_line = Some [3 / 2], load_fclose = True\<rparr>)
       = gimli_init header_sample"
    then have "[3 / 2, 0, 0] = [0, 0, (0::real)]" using l i by simp
    then show False by simp
  qed
  then show ?thesis
    using l i by (simp add: get_loadavg_def sscanf_load_def)
qed

section \<open>The core count\<close>
















section \<open>Properties of the connection handler\<close>

lemma handle_connection_full_buffer:
  assumes "length arrived = BUF_SIZE" and "arrived ! (BUF_SIZE - 1) \<noteq> LF"
  shows "handle_connection pf h g (Some arrived) send1 send2 = Inl (OutOfBounds BUF_SIZE)"
proof -
  have "0 < BUF_SIZE" by (simp add: BUF_SIZE_def)
  then show ?thesis
    using assms unfolding handle_connection_def nul_index_def Let_def by simp
qed

text \<open>
  The store of the NUL is inside \<^verbatim>\<open>buf\<close> when fewer bytes than the array holds have
  arrived, or when the last byte copied is a newline.
\<close>

lemma nul_index_in_bounds:
  assumes "arrived \<noteq> []"
    and "length arrived < BUF_SIZE \<or> last (take BUF_SIZE arrived) = LF"
  shows "nul_index (take BUF_SIZE arrived) < BUF_SIZE"
proof -
  define d where "d = take BUF_SIZE arrived"
  have pos: "0 < BUF_SIZE" by (simp add: BUF_SIZE_def)
  then have ne: "d \<noteq> []" using assms(1) by (simp add: d_def)
  have len: "length d \<le> BUF_SIZE" by (simp add: d_def)
  have "nul_index d < BUF_SIZE"
  proof (cases "d ! (length d - 1) = LF")
    case True
    have "0 < length d" using ne by simp
    then have "length d - 1 < BUF_SIZE" using len by linarith
    then show ?thesis using True by (simp add: nul_index_def)
  next
    case False
    then have "last d \<noteq> LF" using ne by (simp add: last_conv_nth)
    then have "length arrived < BUF_SIZE" using assms(2) by (auto simp: d_def)
    then have "length d < BUF_SIZE" by (simp add: d_def)
    then show ?thesis using False by (simp add: nul_index_def)
  qed
  then show ?thesis by (simp add: d_def)
qed

text \<open>
  C10. The claim: for every received request, also one that fills the receive buffer and
  does not end in a newline, the index at which the handler stores the NUL is inside the
  buffer. The code at such a request: 1024 bytes \<^verbatim>\<open>A\<close> arrive, \<^verbatim>\<open>recv\<close> returns 1024, the
  last byte is no newline, and the NUL is stored at \<^verbatim>\<open>buf[1024]\<close>, one past the end of
  \<^verbatim>\<open>char buf[1024]\<close>.
\<close>

theorem C10_nul_store_past_buffer:
  "handle_connection pf h g (Some (replicate 1024 (CHR ''A''))) send1 send2
     = Inl (OutOfBounds 1024)"
proof -
  have "length (replicate 1024 (CHR ''A'')) = BUF_SIZE"
    by (simp add: BUF_SIZE_def)
  moreover have "replicate 1024 (CHR ''A'') ! (BUF_SIZE - 1) \<noteq> LF"
    by (simp add: BUF_SIZE_def LF_def)
  ultimately have
    "handle_connection pf h g (Some (replicate 1024 (CHR ''A''))) send1 send2
       = Inl (OutOfBounds BUF_SIZE)"
    by (rule handle_connection_full_buffer)
  then show ?thesis by (simp only: BUF_SIZE_def)
qed

end
